theory Spec2Isabelle
  imports Complex_Main "HOL-Library.Stream"
begin

section \<open>Numeric model and library functions\<close>

text \<open>
  The three scripts compute on Python floats. The embedding reads every float as a real
  number: rounding, overflow, infinities and NaN are outside the model. Where a float
  operation of the source yields an infinity or NaN without raising (NumPy's division by
  zero, \<^verbatim>\<open>np.sqrt\<close> or \<^verbatim>\<open>np.log\<close> of a negative number), the real-valued term is
  HOL's total function at that point; theorems about values say so when it matters.

  The exceptions Python does raise on the modelled paths are values of \<open>error\<close>:
  the constructor's \<^verbatim>\<open>T / n_steps\<close> and the quotient \<^verbatim>\<open>S / K\<close> of two Python numbers
  raise \<^verbatim>\<open>ZeroDivisionError\<close>; \<^verbatim>\<open>self.pnl_history[-1]\<close> raises \<^verbatim>\<open>IndexError\<close> on the
  empty list.
\<close>

datatype error = ZeroDivisionError | IndexError

text \<open>
  \<^verbatim>\<open>scipy.stats.norm.pdf\<close> is the standard normal density. \<^verbatim>\<open>scipy.stats.norm.cdf\<close> is its
  distribution function, given here by the power series of
  \<open>1/2 + (\<integral>\<^bsub>0\<^esub>\<^bsup>x\<^esup> exp (- t\<^sup>2 / 2) dt) / sqrt (2 pi)\<close>: the coefficient of
  \<open>x ^ (2 m + 1)\<close> is \<open>(-1) ^ m / (2 ^ m * m! * (2 m + 1))\<close>.
\<close>

definition norm_pdf :: "real \<Rightarrow> real" where
  "norm_pdf x = exp (- (x ^ 2) / 2) / sqrt (2 * pi)"

definition cdf_coeff :: "nat \<Rightarrow> real" where
  "cdf_coeff n =
     (if odd n then (- 1) ^ (n div 2) / (2 ^ (n div 2) * fact (n div 2) * real n) else 0)"

definition norm_cdf :: "real \<Rightarrow> real" where
  "norm_cdf x = 1 / 2 + (\<Sum>n. cdf_coeff n * x ^ n) / sqrt (2 * pi)"

text \<open>
  \<^verbatim>\<open>np.random.normal(0, 1)\<close> draws from NumPy's process-global generator. The state of that
  generator is the stream of standard normal values it is going to return; a draw takes
  the head and leaves the tail. The generator is part of the world the methods run in,
  not a field of the simulator and not an argument of its constructor.
\<close>

type_synonym rng = "real stream"

definition np_random_normal :: "rng \<Rightarrow> real \<times> rng" where
  "np_random_normal g = (shd g, stl g)"

section \<open>The delta hedging simulators\<close>

text \<open>
  \<^verbatim>\<open>src/hedging_autosim.py\<close> and \<^verbatim>\<open>src/compare_volatility.py\<close> each declare a class
  \<^verbatim>\<open>DeltaHedgingSimulator\<close>. The fields set by \<^verbatim>\<open>__init__\<close> are those of \<open>simulator\<close>;
  the class of \<^verbatim>\<open>compare_volatility.py\<close> has the further field \<^verbatim>\<open>initial_premium\<close>.
\<close>

record simulator =
  sim_S :: real
  sim_K :: real
  sim_T :: real
  sim_r :: real
  sim_sigma :: real
  sim_dt :: real
  sim_n_steps :: int
  cash :: real
  stock_inventory :: real
  pnl_history :: "real list"
  stock_price_history :: "real list"

record simulator_cv = simulator +
  initial_premium :: real

text \<open>
  \<^verbatim>\<open>__init__\<close> of \<^verbatim>\<open>hedging_autosim.py\<close> (lines 7-20). \<^verbatim>\<open>T / n_steps\<close> raises when
  \<^verbatim>\<open>n_steps\<close> is 0; nothing else is checked.
\<close>

definition init_autosim ::
  "real \<Rightarrow> real \<Rightarrow> real \<Rightarrow> real \<Rightarrow> real \<Rightarrow> int \<Rightarrow> error + simulator" where
  "init_autosim S0 K0 T0 r0 sigma0 n =
     (if n = 0 then Inl ZeroDivisionError
      else Inr \<lparr> sim_S = S0, sim_K = K0, sim_T = T0, sim_r = r0, sim_sigma = sigma0,
                 sim_dt = T0 / real_of_int n, sim_n_steps = n,
                 cash = 0, stock_inventory = 0, pnl_history = [],
                 stock_price_history = [S0] \<rparr>)"

text \<open>\<^verbatim>\<open>__init__\<close> of \<^verbatim>\<open>compare_volatility.py\<close> (lines 7-21).\<close>

definition init_compare ::
  "real \<Rightarrow> real \<Rightarrow> real \<Rightarrow> real \<Rightarrow> real \<Rightarrow> int \<Rightarrow> error + simulator_cv" where
  "init_compare S0 K0 T0 r0 sigma0 n =
     (if n = 0 then Inl ZeroDivisionError
      else Inr \<lparr> sim_S = S0, sim_K = K0, sim_T = T0, sim_r = r0, sim_sigma = sigma0,
                 sim_dt = T0 / real_of_int n, sim_n_steps = n,
                 cash = 0, stock_inventory = 0, pnl_history = [],
                 stock_price_history = [S0], initial_premium = 0 \<rparr>)"

text \<open>
  \<^verbatim>\<open>black_scholes_delta\<close> and \<^verbatim>\<open>black_scholes_price\<close> are the same text in both classes.
  The guard on \<^verbatim>\<open>time_left\<close> comes first; past it, \<^verbatim>\<open>S / self.K\<close> is the only operation
  that raises, when both are Python numbers and \<open>K\<close> is 0. (Inside the loop \<^verbatim>\<open>self.S\<close>
  is a NumPy float after the first market move and the quotient yields an infinity
  instead; a run does not get there with \<open>K = 0\<close>: for \<open>T > 0\<close> the first pricing raises,
  for \<open>T \<le> 0\<close> every \<^verbatim>\<open>current_time\<close> of the loop is \<open>\<le> 0\<close>.)
\<close>

definition black_scholes_delta :: "'a simulator_scheme \<Rightarrow> real \<Rightarrow> real \<Rightarrow> error + real" where
  "black_scholes_delta self s time_left =
     (if time_left \<le> 0 then Inr 0
      else if sim_K self = 0 then Inl ZeroDivisionError
      else
        let d1 = (ln (s / sim_K self) + (sim_r self + 0.5 * sim_sigma self ^ 2) * time_left)
                   / (sim_sigma self * sqrt time_left)
        in Inr (norm_cdf d1))"

definition black_scholes_price :: "'a simulator_scheme \<Rightarrow> real \<Rightarrow> real \<Rightarrow> error + real" where
  "black_scholes_price self s time_left =
     (if time_left \<le> 0 then Inr (max (s - sim_K self) 0)
      else if sim_K self = 0 then Inl ZeroDivisionError
      else
        let d1 = (ln (s / sim_K self) + (sim_r self + 0.5 * sim_sigma self ^ 2) * time_left)
                   / (sim_sigma self * sqrt time_left);
            d2 = d1 - sim_sigma self * sqrt time_left
        in Inr (s * norm_cdf d1 - sim_K self * exp (- sim_r self * time_left) * norm_cdf d2))"

subsection \<open>The body of the hedging loop\<close>

text \<open>
  The re-hedge of \<^verbatim>\<open>compare_volatility.py\<close> (lines 47-53): the trade is always executed.
\<close>

definition rehedge_cv :: "'a simulator_scheme \<Rightarrow> real \<Rightarrow> 'a simulator_scheme" where
  "rehedge_cv self target_delta =
     (let desired_stock = target_delta;
          trade_size = desired_stock - stock_inventory self;
          cost = trade_size * sim_S self
      in self\<lparr> cash := cash self - cost,
               stock_inventory := stock_inventory self + trade_size \<rparr>)"

text \<open>
  The re-hedge of \<^verbatim>\<open>hedging_autosim.py\<close> (lines 51-57): the trade is executed only when
  its size exceeds 0.001 in absolute value.
\<close>

definition rehedge_autosim :: "'a simulator_scheme \<Rightarrow> real \<Rightarrow> 'a simulator_scheme" where
  "rehedge_autosim self target_delta =
     (let desired_stock = target_delta;
          trade_size = desired_stock - stock_inventory self
      in if \<bar>trade_size\<bar> > 0.001
         then let cost = trade_size * sim_S self
              in self\<lparr> cash := cash self - cost,
                       stock_inventory := stock_inventory self + trade_size \<rparr>
         else self)"

text \<open>
  The market move (lines 57-59 of \<^verbatim>\<open>compare_volatility.py\<close>, 61-63 of
  \<^verbatim>\<open>hedging_autosim.py\<close>): one draw from the global generator, the new price, the append.
\<close>

definition market_move :: "'a simulator_scheme \<Rightarrow> rng \<Rightarrow> 'a simulator_scheme \<times> rng" where
  "market_move self g =
     (let (shock, g') = np_random_normal g;
          s' = sim_S self * exp ((sim_r self - 0.5 * sim_sigma self ^ 2) * sim_dt self
                                  + sim_sigma self * sqrt (sim_dt self) * shock)
      in (self\<lparr> sim_S := s', stock_price_history := stock_price_history self @ [s'] \<rparr>, g'))"

text \<open>
  The mark-to-market entry (lines 63-64, resp. 68-69), for the option value just computed.
\<close>

definition mark_to_market :: "'a simulator_scheme \<Rightarrow> real \<Rightarrow> 'a simulator_scheme" where
  "mark_to_market self current_option_value =
     (let portfolio_value = cash self + stock_inventory self * sim_S self - current_option_value
      in self\<lparr> pnl_history := pnl_history self @ [portfolio_value] \<rparr>)"

text \<open>
  One iteration of \<^verbatim>\<open>for step in range(self.n_steps)\<close>, on the object, the local
  \<^verbatim>\<open>current_time\<close> and the generator. The two scripts differ in the re-hedge only, which
  is the parameter \<open>rehedge\<close>. An exception leaves the object as mutated so far. The
  option is valued with \<^verbatim>\<open>current_time\<close> as it is before \<^verbatim>\<open>current_time -= self.dt\<close>.
\<close>

definition hedge_step ::
  "('a simulator_scheme \<Rightarrow> real \<Rightarrow> 'a simulator_scheme) \<Rightarrow>
   'a simulator_scheme \<Rightarrow> real \<Rightarrow> rng \<Rightarrow> error option \<times> 'a simulator_scheme \<times> real \<times> rng" where
  "hedge_step rehedge self current_time g =
     (case black_scholes_delta self (sim_S self) current_time of
        Inl e \<Rightarrow> (Some e, self, current_time, g)
      | Inr target_delta \<Rightarrow>
          (let self1 = rehedge self target_delta;
               (self2, g') = market_move self1 g
           in (case black_scholes_price self2 (sim_S self2) current_time of
                 Inl e \<Rightarrow> (Some e, self2, current_time, g')
               | Inr current_option_value \<Rightarrow>
                   (None, mark_to_market self2 current_option_value,
                    current_time - sim_dt self2, g'))))"

text \<open>
  The loop, by the number of iterations left: \<^verbatim>\<open>range(n)\<close> is empty for \<open>n \<le> 0\<close>, so
  the callers pass \<open>nat n_steps\<close>.
\<close>

fun hedge_loop ::
  "('a simulator_scheme \<Rightarrow> real \<Rightarrow> 'a simulator_scheme) \<Rightarrow> nat \<Rightarrow>
   'a simulator_scheme \<Rightarrow> real \<Rightarrow> rng \<Rightarrow> error option \<times> 'a simulator_scheme \<times> real \<times> rng" where
  "hedge_loop rehedge 0 self current_time g = (None, self, current_time, g)"
| "hedge_loop rehedge (Suc n) self current_time g =
     (case hedge_step rehedge self current_time g of
        (Some e, rest) \<Rightarrow> (Some e, rest)
      | (None, self', current_time', g') \<Rightarrow> hedge_loop rehedge n self' current_time' g')"

subsection \<open>The two drivers\<close>

text \<open>
  \<^verbatim>\<open>run\<close> of \<^verbatim>\<open>compare_volatility.py\<close> (lines 34-68). The result is the returned triple or
  the exception, with the object and the generator as the call leaves them.
\<close>

definition run ::
  "simulator_cv \<Rightarrow> rng \<Rightarrow> (error + real list \<times> real list \<times> real) \<times> simulator_cv \<times> rng" where
  "run self g =
     (case black_scholes_price self (sim_S self) (sim_T self) of
        Inl e \<Rightarrow> (Inl e, self, g)
      | Inr p \<Rightarrow>
          (let self1 = self\<lparr> initial_premium := p \<rparr>;
               self2 = self1\<lparr> cash := cash self1 + initial_premium self1 \<rparr>
           in (case hedge_loop rehedge_cv (nat (sim_n_steps self2)) self2 (sim_T self2) g of
                 (Some e, self3, current_time, g') \<Rightarrow> (Inl e, self3, g')
               | (None, self3, current_time, g') \<Rightarrow>
                   (Inr (stock_price_history self3, pnl_history self3, initial_premium self3),
                    self3, g'))))"

text \<open>
  \<^verbatim>\<open>run_simulation\<close> of \<^verbatim>\<open>hedging_autosim.py\<close> (lines 35-79). It returns nothing; printing
  and plotting are not modelled, except that the final report reads
  \<^verbatim>\<open>self.pnl_history[-1]\<close>, which raises on the empty list.
\<close>

definition run_simulation :: "simulator \<Rightarrow> rng \<Rightarrow> (error + unit) \<times> simulator \<times> rng" where
  "run_simulation self g =
     (case black_scholes_price self (sim_S self) (sim_T self) of
        Inl e \<Rightarrow> (Inl e, self, g)
      | Inr initial_option_price \<Rightarrow>
          (let self1 = self\<lparr> cash := cash self + initial_option_price \<rparr>
           in (case hedge_loop rehedge_autosim (nat (sim_n_steps self1)) self1 (sim_T self1) g of
                 (Some e, self2, current_time, g') \<Rightarrow> (Inl e, self2, g')
               | (None, self2, current_time, g') \<Rightarrow>
                   (if pnl_history self2 = [] then (Inl IndexError, self2, g')
                    else (Inr (), self2, g')))))"

text \<open>
  The call sites: one scenario of \<^verbatim>\<open>run_comparison\<close> (lines 80-81 and 85-86 of
  \<^verbatim>\<open>compare_volatility.py\<close>) constructs a simulator and returns what \<^verbatim>\<open>run\<close> returns;
  the main block of \<^verbatim>\<open>hedging_autosim.py\<close> (lines 100-101) constructs one and calls
  \<^verbatim>\<open>run_simulation\<close>, after which the object holds the two histories. The arguments
  and the state of the global generator are parameters here.
\<close>

definition compare_scenario ::
  "real \<Rightarrow> real \<Rightarrow> real \<Rightarrow> real \<Rightarrow> real \<Rightarrow> int \<Rightarrow> rng \<Rightarrow> error + real list \<times> real list \<times> real" where
  "compare_scenario S0 K0 T0 r0 sigma0 steps g =
     (case init_compare S0 K0 T0 r0 sigma0 steps of
        Inl e \<Rightarrow> Inl e
      | Inr sim \<Rightarrow> fst (run sim g))"

definition autosim_main ::
  "real \<Rightarrow> real \<Rightarrow> real \<Rightarrow> real \<Rightarrow> real \<Rightarrow> int \<Rightarrow> rng \<Rightarrow> error + simulator" where
  "autosim_main S0 K0 T0 r0 sigma0 steps g =
     (case init_autosim S0 K0 T0 r0 sigma0 steps of
        Inl e \<Rightarrow> Inl e
      | Inr sim \<Rightarrow>
          (case run_simulation sim g of
             (Inl e, sim', g') \<Rightarrow> Inl e
           | (Inr u, sim', g') \<Rightarrow> Inr sim'))"

section \<open>The option market maker\<close>







section \<open>Auxiliary definitions\<close>

text \<open>
  The prices appended by \<open>n\<close> iterations of the loop, from the price \<open>s\<close>: the market
  move of the loop body on its own, which reads nothing of cash, inventory or time.
\<close>

fun price_path :: "real \<Rightarrow> real \<Rightarrow> real \<Rightarrow> real \<Rightarrow> nat \<Rightarrow> rng \<Rightarrow> real list" where
  "price_path r0 sigma0 dt0 s 0 g = []"
| "price_path r0 sigma0 dt0 s (Suc n) g =
     (let s' = s * exp ((r0 - 0.5 * sigma0 ^ 2) * dt0 + sigma0 * sqrt dt0 * shd g)
      in s' # price_path r0 sigma0 dt0 s' n (stl g))"

text \<open>
  Two runs of \<^verbatim>\<open>hedging_autosim.py\<close> that the claims are tried on, both at the money
  with \<open>r = sigma\<^sup>2 / 2\<close> and every shock 0, so that the price stays at 100: one step
  over one year at volatility 0.2, and two steps over one year at volatility 0.001.
\<close>

abbreviation stale_time_run :: simulator where
  "stale_time_run \<equiv> projr (autosim_main 100 100 1 0.02 0.2 1 (sconst 0))"


section \<open>The standard normal distribution function\<close>

text \<open>
  The series converges everywhere, its derivative is the density, and its value at 0 is
  one half; so \<open>norm_cdf\<close> increases strictly and moves by less than its argument does.
\<close>

lemma cdf_coeff_odd: "cdf_coeff (Suc (2 * m)) = (- 1) ^ m / (2 ^ m * fact m * real (Suc (2 * m)))"
  by (simp add: cdf_coeff_def)

lemma cdf_coeff_even: "even n \<Longrightarrow> cdf_coeff n = 0"
  by (simp add: cdf_coeff_def)

lemma gauss_series: "(\<lambda>m. (- (x ^ 2) / 2) ^ m / fact m) sums exp (- (x ^ 2) / 2)" for x :: real
proof -
  have "(\<lambda>m. (- (x ^ 2) / 2) ^ m /\<^sub>R fact m) sums exp (- (x ^ 2) / 2)"
    by (rule exp_converges)
  moreover have "(- (x ^ 2) / 2) ^ m /\<^sub>R fact m = (- (x ^ 2) / 2) ^ m / fact m" for m
    by (simp only: real_scaleR_def divide_inverse mult.commute)
  ultimately show ?thesis by (simp only:)
qed

lemma gauss_power: "(- (x ^ 2) / 2) ^ m = (- 1) ^ m * x ^ (2 * m) / 2 ^ m" for x :: real
proof -
  have "(- (x ^ 2) / 2) ^ m = ((- 1) * (x ^ 2 / 2)) ^ m" by simp
  also have "\<dots> = (- 1) ^ m * (x ^ 2 / 2) ^ m" by (rule power_mult_distrib)
  also have "(x ^ 2 / 2) ^ m = x ^ (2 * m) / 2 ^ m" by (simp add: power_divide power_mult)
  finally show ?thesis by simp
qed

lemma diffs_cdf_coeff:
  "diffs cdf_coeff n * x ^ n = (if even n then (- (x ^ 2) / 2) ^ (n div 2) / fact (n div 2) else 0)"
proof (cases "even n")
  case True
  then obtain m where n: "n = 2 * m" by (auto elim: evenE)
  have "diffs cdf_coeff n * x ^ n = (- 1) ^ m / (2 ^ m * fact m) * x ^ (2 * m)"
    by (simp add: diffs_def n cdf_coeff_odd)
  also have "\<dots> = (- (x ^ 2) / 2) ^ m / fact m"
    by (simp only: gauss_power) (simp add: field_simps)
  finally show ?thesis using True n by simp
next
  case False
  then show ?thesis by (simp add: diffs_def cdf_coeff_even)
qed

lemma diffs_cdf_series: "(\<lambda>n. diffs cdf_coeff n * x ^ n) sums exp (- (x ^ 2) / 2)"
proof -
  have "(\<lambda>n. if even n then (- (x ^ 2) / 2) ^ (n div 2) / fact (n div 2) else (\<lambda>_. 0) ((n - 1) div 2))
          sums (0 + exp (- (x ^ 2) / 2))"
    by (rule sums_if [OF sums_zero gauss_series])
  then show ?thesis by (simp add: diffs_cdf_coeff)
qed


lemma cdf_series_summable: "summable (\<lambda>n. cdf_coeff n * y ^ n)"
proof -
  define h where "h m = cdf_coeff (Suc (2 * m)) * y ^ Suc (2 * m)" for m
  have bound: "norm (h m) \<le> \<bar>y\<bar> * ((y ^ 2 / 2) ^ m / fact m)" for m
  proof -
    let ?u = "\<bar>y\<bar> * ((y ^ 2 / 2) ^ m / fact m)"
    have u: "0 \<le> ?u" by simp
    have "\<bar>y ^ Suc (2 * m)\<bar> = \<bar>y\<bar> * (y ^ 2) ^ m"
      by (simp add: power_mult abs_mult power_abs)
    then have "norm (h m) = \<bar>y\<bar> * (y ^ 2) ^ m / (2 ^ m * fact m * real (Suc (2 * m)))"
      unfolding h_def cdf_coeff_odd by (simp add: abs_mult power_abs del: power_Suc)
    also have "\<dots> = ?u / real (Suc (2 * m))"
      by (simp add: power_divide)
    also have "\<dots> \<le> ?u / 1"
      by (rule divide_left_mono [OF _ u]) simp_all
    finally show ?thesis by simp
  qed
  have "inverse (fact m) * z ^ m = z ^ m / fact m" for z :: real and m
    by (simp add: field_simps)
  then have "summable (\<lambda>m. (y ^ 2 / 2) ^ m / fact m)"
    using summable_exp [of "y ^ 2 / 2"] by (simp only:)
  then have "summable (\<lambda>m. \<bar>y\<bar> * ((y ^ 2 / 2) ^ m / fact m))"
    by (rule summable_mult)
  then have "summable h"
    by (rule summable_comparison_test') (rule bound)
  then have "(\<lambda>n. if even n then 0 else h ((n - 1) div 2)) sums suminf h"
    by (intro sums_if' summable_sums)
  moreover have "(if even n then 0 else h ((n - 1) div 2)) = cdf_coeff n * y ^ n" for n
    by (auto simp: h_def cdf_coeff_even elim!: oddE)
  ultimately show ?thesis by (simp add: sums_iff)
qed

lemma cdf_series_deriv:
  "((\<lambda>x. \<Sum>n. cdf_coeff n * x ^ n) has_real_derivative exp (- (x ^ 2) / 2)) (at x)"
proof -
  have "((\<lambda>x. \<Sum>n. cdf_coeff n * x ^ n) has_real_derivative (\<Sum>n. diffs cdf_coeff n * x ^ n)) (at x)"
    by (rule termdiffs_strong_converges_everywhere) (rule cdf_series_summable)
  moreover have "(\<Sum>n. diffs cdf_coeff n * x ^ n) = exp (- (x ^ 2) / 2)"
    using diffs_cdf_series [of x] by (simp add: sums_iff)
  ultimately show ?thesis by simp
qed

lemma norm_cdf_deriv: "(norm_cdf has_real_derivative norm_pdf x) (at x)"
proof -
  have "((\<lambda>x. 1 / 2 + (\<Sum>n. cdf_coeff n * x ^ n) / sqrt (2 * pi))
           has_real_derivative 0 + exp (- (x ^ 2) / 2) / sqrt (2 * pi)) (at x)"
    by (intro DERIV_add DERIV_const DERIV_cdivide cdf_series_deriv)
  then show ?thesis
    by (simp add: norm_cdf_def [abs_def] norm_pdf_def)
qed

lemma norm_cdf_0: "norm_cdf 0 = 1 / 2"
  by (simp add: norm_cdf_def cdf_coeff_def)

lemma norm_pdf_pos: "0 < norm_pdf x"
  by (simp add: norm_pdf_def)


lemma norm_cdf_strict_mono: "a < b \<Longrightarrow> norm_cdf a < norm_cdf b"
  by (rule DERIV_pos_imp_increasing [of a b norm_cdf]) (auto intro: norm_cdf_deriv norm_pdf_pos)


lemma norm_cdf_pos_half: "0 < x \<Longrightarrow> 1 / 2 < norm_cdf x"
  using norm_cdf_strict_mono [of 0 x] by (simp add: norm_cdf_0)

section \<open>The hedging loop\<close>

lemma rehedge_cv_fields [simp]:
  "sim_S (rehedge_cv self d) = sim_S self"
  "sim_K (rehedge_cv self d) = sim_K self"
  "sim_T (rehedge_cv self d) = sim_T self"
  "sim_r (rehedge_cv self d) = sim_r self"
  "sim_sigma (rehedge_cv self d) = sim_sigma self"
  "sim_dt (rehedge_cv self d) = sim_dt self"
  "sim_n_steps (rehedge_cv self d) = sim_n_steps self"
  "pnl_history (rehedge_cv self d) = pnl_history self"
  "stock_price_history (rehedge_cv self d) = stock_price_history self"
  by (simp_all add: rehedge_cv_def Let_def)

lemma rehedge_autosim_fields [simp]:
  "sim_S (rehedge_autosim self d) = sim_S self"
  "sim_K (rehedge_autosim self d) = sim_K self"
  "sim_T (rehedge_autosim self d) = sim_T self"
  "sim_r (rehedge_autosim self d) = sim_r self"
  "sim_sigma (rehedge_autosim self d) = sim_sigma self"
  "sim_dt (rehedge_autosim self d) = sim_dt self"
  "sim_n_steps (rehedge_autosim self d) = sim_n_steps self"
  "pnl_history (rehedge_autosim self d) = pnl_history self"
  "stock_price_history (rehedge_autosim self d) = stock_price_history self"
  by (simp_all add: rehedge_autosim_def Let_def)

text \<open>What a completed iteration leaves behind, apart from cash and inventory.\<close>

lemma hedge_step_None:
  assumes "hedge_step rh self t g = (None, self', t', g')"
    and "rh = rehedge_cv \<or> rh = rehedge_autosim"
  shows "t' = t - sim_dt self" and "g' = stl g"
    and "sim_S self' = sim_S self * exp ((sim_r self - 0.5 * sim_sigma self ^ 2) * sim_dt self
                                   + sim_sigma self * sqrt (sim_dt self) * shd g)"
    and "stock_price_history self' = stock_price_history self @ [sim_S self']"
    and "length (pnl_history self') = Suc (length (pnl_history self))"
    and "sim_K self' = sim_K self" and "sim_r self' = sim_r self"
    and "sim_sigma self' = sim_sigma self" and "sim_dt self' = sim_dt self"
  using assms
  by (auto simp: hedge_step_def market_move_def mark_to_market_def np_random_normal_def Let_def
           split: sum.splits prod.splits)

lemma hedge_step_no_error:
  assumes "sim_K self \<noteq> 0" and "rh = rehedge_cv \<or> rh = rehedge_autosim"
  shows "\<exists>self' t' g'. hedge_step rh self t g = (None, self', t', g')"
  using assms
  by (auto simp: hedge_step_def market_move_def np_random_normal_def Let_def
                 black_scholes_delta_def black_scholes_price_def
           split: sum.splits prod.splits)

lemma hedge_loop_Suc_None:
  "hedge_loop rh (Suc n) self t g = (None, self', t', g') \<longleftrightarrow>
     (\<exists>s1 t1 g1. hedge_step rh self t g = (None, s1, t1, g1) \<and>
                 hedge_loop rh n s1 t1 g1 = (None, self', t', g'))"
  by (auto split: prod.splits option.splits)


lemma hedge_loop_None_all:
  assumes "hedge_loop rh n self t g = (None, self', t', g')"
    and "rh = rehedge_cv \<or> rh = rehedge_autosim"
  shows "stock_price_history self' =
           stock_price_history self
             @ price_path (sim_r self) (sim_sigma self) (sim_dt self) (sim_S self) n g \<and>
         length (pnl_history self') = length (pnl_history self) + n \<and>
         t' = t - real n * sim_dt self \<and> g' = sdrop n g"
  using assms(1)
proof (induction n arbitrary: self t g)
  case 0
  then show ?case by simp
next
  case (Suc n)
  from Suc.prems obtain s1 t1 g1 where st: "hedge_step rh self t g = (None, s1, t1, g1)"
    and lp: "hedge_loop rh n s1 t1 g1 = (None, self', t', g')"
    unfolding hedge_loop_Suc_None by blast
  note step = hedge_step_None [OF st assms(2)]
  from Suc.IH [OF lp] step show ?case
    by (simp add: Let_def algebra_simps)
qed

lemmas hedge_loop_None = hedge_loop_None_all [THEN conjunct1]
  hedge_loop_None_all [THEN conjunct2, THEN conjunct1]
  hedge_loop_None_all [THEN conjunct2, THEN conjunct2, THEN conjunct1]
  hedge_loop_None_all [THEN conjunct2, THEN conjunct2, THEN conjunct2]

lemma hedge_loop_no_error:
  assumes "sim_K self \<noteq> 0" and "rh = rehedge_cv \<or> rh = rehedge_autosim"
  shows "\<exists>self' t' g'. hedge_loop rh n self t g = (None, self', t', g')"
  using assms(1)
proof (induction n arbitrary: self t g)
  case 0
  then show ?case by simp
next
  case (Suc n)
  obtain s1 t1 g1 where st: "hedge_step rh self t g = (None, s1, t1, g1)"
    using hedge_step_no_error [OF Suc.prems assms(2)] by blast
  have "sim_K s1 \<noteq> 0"
    using hedge_step_None(6) [OF st assms(2)] Suc.prems by simp
  from Suc.IH [OF this] obtain self' t' g'
    where "hedge_loop rh n s1 t1 g1 = (None, self', t', g')" by blast
  with st show ?case unfolding hedge_loop_Suc_None by blast
qed


text \<open>
  The books after a completed iteration: the entry appended to the PnL history values
  the option at the new price and at \<open>t\<close>, the time the iteration started with.
\<close>

lemma mark_to_market_fields [simp]:
  "sim_S (mark_to_market self v) = sim_S self"
  "cash (mark_to_market self v) = cash self"
  "stock_inventory (mark_to_market self v) = stock_inventory self"
  "black_scholes_price (mark_to_market self v) x t = black_scholes_price self x t"
  "pnl_history (mark_to_market self v)
     = pnl_history self @ [cash self + stock_inventory self * sim_S self - v]"
  by (simp_all add: mark_to_market_def black_scholes_price_def Let_def)

lemma market_move_fields [simp]:
  "cash (fst (market_move self g)) = cash self"
  "stock_inventory (fst (market_move self g)) = stock_inventory self"
  "pnl_history (fst (market_move self g)) = pnl_history self"
  by (simp_all add: market_move_def np_random_normal_def Let_def)

lemma hedge_step_books:
  assumes "hedge_step rh self t g = (None, self', t', g')"
    and "rh = rehedge_cv \<or> rh = rehedge_autosim"
  shows "\<exists>d v. black_scholes_delta self (sim_S self) t = Inr d \<and>
               black_scholes_price self' (sim_S self') t = Inr v \<and>
               cash self' = cash (rh self d) \<and>
               stock_inventory self' = stock_inventory (rh self d) \<and>
               pnl_history self' =
                 pnl_history self @ [cash self' + stock_inventory self' * sim_S self' - v]"
proof -
  from assms(1) obtain d where d: "black_scholes_delta self (sim_S self) t = Inr d"
    by (auto simp: hedge_step_def split: sum.splits)
  define self2 where "self2 = fst (market_move (rh self d) g)"
  from assms(1) d obtain v where v: "black_scholes_price self2 (sim_S self2) t = Inr v"
    and s': "self' = mark_to_market self2 v"
    by (auto simp: hedge_step_def self2_def Let_def split: sum.splits prod.splits)
  have "pnl_history (rh self d) = pnl_history self"
    using assms(2) by auto
  then show ?thesis
    using d v by (auto simp: s' self2_def)
qed

lemma hedge_step_T:
  assumes "hedge_step rh self t g = (None, self', t', g')"
    and "rh = rehedge_cv \<or> rh = rehedge_autosim"
  shows "sim_T self' = sim_T self"
  using assms
  by (auto simp: hedge_step_def market_move_def mark_to_market_def np_random_normal_def Let_def
           split: sum.splits prod.splits)



subsection \<open>Runs\<close>

lemma black_scholes_price_no_error:
  "sim_K self \<noteq> 0 \<Longrightarrow> \<exists>p. black_scholes_price self s t = Inr p"
  by (simp add: black_scholes_price_def Let_def)

lemma compare_scenario_Inr:
  assumes "compare_scenario S0 K0 T0 r0 sigma0 n g = Inr (ph, pnl, prem)"
  shows "n \<noteq> 0"
    and "ph = S0 # price_path r0 sigma0 (T0 / real_of_int n) S0 (nat n) g"
    and "length pnl = nat n"
proof -
  show n: "n \<noteq> 0"
    using assms by (auto simp: compare_scenario_def init_compare_def)
  define sim :: simulator_cv where
    "sim = \<lparr> sim_S = S0, sim_K = K0, sim_T = T0, sim_r = r0, sim_sigma = sigma0,
              sim_dt = T0 / real_of_int n, sim_n_steps = n,
              cash = 0, stock_inventory = 0, pnl_history = [],
              stock_price_history = [S0], initial_premium = 0 \<rparr>"
  have r: "fst (run sim g) = Inr (ph, pnl, prem)"
    using assms n by (simp add: compare_scenario_def init_compare_def sim_def)
  then obtain p where p: "black_scholes_price sim (sim_S sim) (sim_T sim) = Inr p"
    by (auto simp: run_def split: sum.splits)
  define sim2 where "sim2 = sim\<lparr> initial_premium := p, cash := cash sim + p \<rparr>"
  obtain eo self3 t3 g3 where
    lp: "hedge_loop rehedge_cv (nat n) sim2 T0 g = (eo, self3, t3, g3)"
    by (metis prod_cases4)
  have eo: "eo = None" and ph: "ph = stock_price_history self3" and pnl: "pnl = pnl_history self3"
    using r p lp by (auto simp: run_def sim2_def sim_def Let_def split: option.splits)
  note fin = hedge_loop_None [OF lp [unfolded eo]]
  show "ph = S0 # price_path r0 sigma0 (T0 / real_of_int n) S0 (nat n) g"
    using fin(1) by (simp add: ph sim2_def sim_def)
  show "length pnl = nat n"
    using fin(2) by (simp add: pnl sim2_def sim_def)
qed

lemma compare_scenario_succeeds:
  assumes "n \<noteq> 0" and "K0 \<noteq> 0"
  shows "\<exists>ph pnl prem. compare_scenario S0 K0 T0 r0 sigma0 n g = Inr (ph, pnl, prem)"
proof -
  define sim :: simulator_cv where
    "sim = \<lparr> sim_S = S0, sim_K = K0, sim_T = T0, sim_r = r0, sim_sigma = sigma0,
              sim_dt = T0 / real_of_int n, sim_n_steps = n,
              cash = 0, stock_inventory = 0, pnl_history = [],
              stock_price_history = [S0], initial_premium = 0 \<rparr>"
  obtain p where p: "black_scholes_price sim (sim_S sim) (sim_T sim) = Inr p"
    using black_scholes_price_no_error [of sim] assms(2) by (auto simp: sim_def)
  define sim2 where "sim2 = sim\<lparr> initial_premium := p, cash := cash sim + p \<rparr>"
  have "sim_K sim2 \<noteq> 0" using assms(2) by (simp add: sim2_def sim_def)
  then obtain self3 t3 g3 where
    lp: "hedge_loop rehedge_cv (nat n) sim2 T0 g = (None, self3, t3, g3)"
    using hedge_loop_no_error [of sim2 rehedge_cv "nat n" T0 g] by blast
  have "compare_scenario S0 K0 T0 r0 sigma0 n g
          = Inr (stock_price_history self3, pnl_history self3, initial_premium self3)"
    using assms(1) p lp
    by (simp add: compare_scenario_def init_compare_def run_def sim2_def sim_def Let_def)
  then show ?thesis by blast
qed

lemma autosim_main_Inr:
  assumes "autosim_main S0 K0 T0 r0 sigma0 n g = Inr sim'"
  shows "1 \<le> n"
    and "stock_price_history sim' = S0 # price_path r0 sigma0 (T0 / real_of_int n) S0 (nat n) g"
    and "length (pnl_history sim') = nat n"
proof -
  have n: "n \<noteq> 0"
    using assms by (auto simp: autosim_main_def init_autosim_def)
  define sim :: simulator where
    "sim = \<lparr> sim_S = S0, sim_K = K0, sim_T = T0, sim_r = r0, sim_sigma = sigma0,
              sim_dt = T0 / real_of_int n, sim_n_steps = n,
              cash = 0, stock_inventory = 0, pnl_history = [],
              stock_price_history = [S0] \<rparr>"
  obtain out g' where r: "run_simulation sim g = (Inr out, sim', g')"
    using assms n
    by (auto simp: autosim_main_def init_autosim_def sim_def split: prod.splits sum.splits)
  then obtain p where p: "black_scholes_price sim (sim_S sim) (sim_T sim) = Inr p"
    by (auto simp: run_simulation_def split: sum.splits)
  define sim2 where "sim2 = sim\<lparr> cash := cash sim + p \<rparr>"
  obtain eo self3 t3 g3 where
    lp: "hedge_loop rehedge_autosim (nat n) sim2 T0 g = (eo, self3, t3, g3)"
    by (metis prod_cases4)
  have eo: "eo = None" and s3: "self3 = sim'" and ne: "pnl_history self3 \<noteq> []"
    using r p lp
    by (auto simp: run_simulation_def sim2_def sim_def Let_def split: option.splits if_splits)
  note fin = hedge_loop_None [OF lp [unfolded eo]]
  show "stock_price_history sim' = S0 # price_path r0 sigma0 (T0 / real_of_int n) S0 (nat n) g"
    using fin(1) by (simp add: s3 [symmetric] sim2_def sim_def)
  show len: "length (pnl_history sim') = nat n"
    using fin(2) by (simp add: s3 [symmetric] sim2_def sim_def)
  show "1 \<le> n"
    using len ne s3 by (cases "1 \<le> n") auto
qed

lemma autosim_main_succeeds:
  assumes "1 \<le> n" and "K0 \<noteq> 0"
  shows "\<exists>sim'. autosim_main S0 K0 T0 r0 sigma0 n g = Inr sim'"
proof -
  define sim :: simulator where
    "sim = \<lparr> sim_S = S0, sim_K = K0, sim_T = T0, sim_r = r0, sim_sigma = sigma0,
              sim_dt = T0 / real_of_int n, sim_n_steps = n,
              cash = 0, stock_inventory = 0, pnl_history = [],
              stock_price_history = [S0] \<rparr>"
  obtain p where p: "black_scholes_price sim (sim_S sim) (sim_T sim) = Inr p"
    using black_scholes_price_no_error [of sim] assms(2) by (auto simp: sim_def)
  define sim2 where "sim2 = sim\<lparr> cash := cash sim + p \<rparr>"
  have "sim_K sim2 \<noteq> 0" using assms(2) by (simp add: sim2_def sim_def)
  then obtain self3 t3 g3 where
    lp: "hedge_loop rehedge_autosim (nat n) sim2 T0 g = (None, self3, t3, g3)"
    using hedge_loop_no_error [of sim2 rehedge_autosim "nat n" T0 g] by blast
  have "length (pnl_history self3) = nat n"
    using hedge_loop_None(2) [OF lp] by (simp add: sim2_def sim_def)
  then have "pnl_history self3 \<noteq> []" using assms(1) by auto
  then have "autosim_main S0 K0 T0 r0 sigma0 n g = Inr self3"
    using assms(1) p lp
    by (simp add: autosim_main_def init_autosim_def run_simulation_def sim2_def sim_def Let_def)
  then show ?thesis by blast
qed

lemma autosim_main_loop:
  assumes "autosim_main S0 K0 T0 r0 sigma0 n g = Inr sim'"
  shows "\<exists>sim0 p t3 g3.
           init_autosim S0 K0 T0 r0 sigma0 n = Inr sim0 \<and>
           black_scholes_price sim0 (sim_S sim0) (sim_T sim0) = Inr p \<and>
           hedge_loop rehedge_autosim (nat (sim_n_steps sim0))
             (sim0\<lparr> cash := cash sim0 + p \<rparr>) (sim_T sim0) g = (None, sim', t3, g3)"
proof -
  from assms obtain sim0 where i: "init_autosim S0 K0 T0 r0 sigma0 n = Inr sim0"
    by (auto simp: autosim_main_def split: sum.splits)
  with assms obtain out g' where r: "run_simulation sim0 g = (Inr out, sim', g')"
    by (auto simp: autosim_main_def split: sum.splits prod.splits)
  then obtain p where p: "black_scholes_price sim0 (sim_S sim0) (sim_T sim0) = Inr p"
    by (auto simp: run_simulation_def split: sum.splits)
  obtain eo self3 t3 g3 where
    lp: "hedge_loop rehedge_autosim (nat (sim_n_steps sim0))
           (sim0\<lparr> cash := cash sim0 + p \<rparr>) (sim_T sim0) g = (eo, self3, t3, g3)"
    by (rule prod_cases4)
  have "eo = None" and "self3 = sim'"
    using r p lp
    by (auto simp: run_simulation_def Let_def split: option.splits if_splits)
  with i p lp show ?thesis by blast
qed

subsection \<open>At the money\<close>

text \<open>
  With the spot at the strike and \<open>r = sigma\<^sup>2 / 2\<close>, \<open>d1\<close> is \<open>sigma * sqrt t\<close> and
  \<open>d2\<close> is 0.
\<close>

lemma atm_d1:
  assumes "0 < t" and "0 < sg" and "0 < s"
  shows "(ln (s / s) + (sg ^ 2 / 2 + 0.5 * sg ^ 2) * t) / (sg * sqrt t) = sg * sqrt t"
proof -
  have "(sg ^ 2 / 2 + 0.5 * sg ^ 2) * t = (sg * sqrt t) * (sg * sqrt t)"
    using assms(1) by (simp add: power2_eq_square algebra_simps)
  moreover have "sg * sqrt t \<noteq> 0" using assms by simp
  ultimately show ?thesis using assms(3) by simp
qed


lemma atm_price:
  assumes "0 < t" and "0 < sim_sigma self" and "sim_K self = s" and "0 < s"
    and "sim_r self = sim_sigma self ^ 2 / 2"
  shows "black_scholes_price self s t
           = Inr (s * norm_cdf (sim_sigma self * sqrt t) - s * exp (- sim_r self * t) * (1 / 2))"
proof -
  have d1: "(ln (s / sim_K self) + (sim_r self + 0.5 * sim_sigma self ^ 2) * t)
              / (sim_sigma self * sqrt t) = sim_sigma self * sqrt t"
    unfolding assms(3) assms(5) using assms(1,2,4) by (rule atm_d1)
  have k: "sim_K self \<noteq> 0" and t: "\<not> t \<le> 0" using assms by simp_all
  have "black_scholes_price self s t
          = Inr (s * norm_cdf (sim_sigma self * sqrt t)
                 - sim_K self * exp (- sim_r self * t)
                   * norm_cdf (sim_sigma self * sqrt t - sim_sigma self * sqrt t))"
    unfolding black_scholes_price_def Let_def d1 by (simp only: k t if_False)
  then show ?thesis by (simp add: norm_cdf_0 assms(3))
qed

subsection \<open>The price path\<close>



lemma price_path_length: "length (price_path r0 sigma0 dt0 s n g) = n"
  by (induction n arbitrary: s g) (simp_all add: Let_def)


lemma run_shape:
  assumes "compare_scenario S0 K0 T0 r0 sigma0 n g = Inr (ph, pnl, prem) \<or>
           (autosim_main S0 K0 T0 r0 sigma0 n g = Inr sim' \<and>
            ph = stock_price_history sim' \<and> pnl = pnl_history sim')"
  shows "ph = S0 # price_path r0 sigma0 (T0 / real_of_int n) S0 (nat n) g"
    and "length pnl = nat n"
  using assms compare_scenario_Inr(2,3) [of S0 K0 T0 r0 sigma0 n g ph pnl prem]
    autosim_main_Inr(2,3) [of S0 K0 T0 r0 sigma0 n g sim']
  by blast+

subsection \<open>Dependence on the generator\<close>

text \<open>
  An iteration reads the generator through one draw; \<open>n\<close> iterations read its first
  \<open>n\<close> values and nothing else.
\<close>

lemma hedge_step_shd:
  assumes "shd g1 = shd g2"
  shows "fst (hedge_step rh self t g1) = fst (hedge_step rh self t g2)"
    and "fst (snd (hedge_step rh self t g1)) = fst (snd (hedge_step rh self t g2))"
    and "fst (snd (snd (hedge_step rh self t g1))) = fst (snd (snd (hedge_step rh self t g2)))"
  using assms
  by (simp_all add: hedge_step_def market_move_def np_random_normal_def Let_def
           split: sum.splits prod.splits)

lemma hedge_step_stl: "hedge_step rh self t g = (None, s, t', g') \<Longrightarrow> g' = stl g"
  by (auto simp: hedge_step_def market_move_def np_random_normal_def Let_def
           split: sum.splits prod.splits)

lemma hedge_loop_stake:
  assumes "stake n g1 = stake n g2"
  shows "\<exists>e s t' h1 h2. hedge_loop rh n self t g1 = (e, s, t', h1) \<and>
                        hedge_loop rh n self t g2 = (e, s, t', h2)"
  using assms
proof (induction n arbitrary: self t g1 g2)
  case 0
  then show ?case by simp
next
  case (Suc n)
  then have hd: "shd g1 = shd g2" and tl: "stake n (stl g1) = stake n (stl g2)"
    by simp_all
  obtain e s t' h1 where 1: "hedge_step rh self t g1 = (e, s, t', h1)"
    by (rule prod_cases4)
  obtain e2 s2 t2 h2 where 2: "hedge_step rh self t g2 = (e2, s2, t2, h2)"
    by (rule prod_cases4)
  from hedge_step_shd [OF hd, of rh self t] 1 2
  have eq: "e2 = e" "s2 = s" "t2 = t'" by simp_all
  show ?case
  proof (cases e)
    case None
    with 1 2 eq have "h1 = stl g1" "h2 = stl g2"
      by (auto dest: hedge_step_stl)
    with Suc.IH [OF tl, of s t'] 1 2 eq None show ?thesis by simp
  next
    case (Some err)
    with 1 2 eq show ?thesis by simp
  qed
qed

lemma run_stake:
  assumes "stake (nat (sim_n_steps sim)) g1 = stake (nat (sim_n_steps sim)) g2"
  shows "fst (run sim g1) = fst (run sim g2)"
proof (cases "black_scholes_price sim (sim_S sim) (sim_T sim)")
  case (Inl e)
  then show ?thesis by (simp add: run_def)
next
  case (Inr p)
  let ?s = "sim\<lparr> initial_premium := p, cash := cash sim + p \<rparr>"
  from hedge_loop_stake [OF assms, of rehedge_cv ?s "sim_T sim"] obtain e s t' h1 h2
    where "hedge_loop rehedge_cv (nat (sim_n_steps sim)) ?s (sim_T sim) g1 = (e, s, t', h1)"
      and "hedge_loop rehedge_cv (nat (sim_n_steps sim)) ?s (sim_T sim) g2 = (e, s, t', h2)"
    by blast
  with Inr show ?thesis
    by (simp add: run_def Let_def split: option.splits)
qed

lemma run_simulation_stake:
  assumes "stake (nat (sim_n_steps sim)) g1 = stake (nat (sim_n_steps sim)) g2"
  shows "fst (run_simulation sim g1) = fst (run_simulation sim g2) \<and>
         fst (snd (run_simulation sim g1)) = fst (snd (run_simulation sim g2))"
proof (cases "black_scholes_price sim (sim_S sim) (sim_T sim)")
  case (Inl e)
  then show ?thesis by (simp add: run_simulation_def)
next
  case (Inr p)
  let ?s = "sim\<lparr> cash := cash sim + p \<rparr>"
  from hedge_loop_stake [OF assms, of rehedge_autosim ?s "sim_T sim"] obtain e s t' h1 h2
    where "hedge_loop rehedge_autosim (nat (sim_n_steps sim)) ?s (sim_T sim) g1 = (e, s, t', h1)"
      and "hedge_loop rehedge_autosim (nat (sim_n_steps sim)) ?s (sim_T sim) g2 = (e, s, t', h2)"
    by blast
  with Inr show ?thesis
    by (simp add: run_simulation_def Let_def split: option.splits)
qed

lemma autosim_main_fst_snd:
  "autosim_main S0 K0 T0 r0 sigma0 n g =
     (case init_autosim S0 K0 T0 r0 sigma0 n of
        Inl e \<Rightarrow> Inl e
      | Inr sim \<Rightarrow> (case fst (run_simulation sim g) of
                     Inl e \<Rightarrow> Inl e
                   | Inr u \<Rightarrow> Inr (fst (snd (run_simulation sim g)))))"
  by (simp add: autosim_main_def split: sum.splits prod.splits)

section \<open>The market maker's quote\<close>



section \<open>Claims\<close>

text \<open>
  C1 (the code at a failing input). The claim: the PnL entry of step \<open>k\<close> is
  \<open>cash + inventory * S\<^bsub>k+1\<^esub> - price S\<^bsub>k+1\<^esub> (T - (k + 1) * dt)\<close>. The loop values the
  option before it advances \<^verbatim>\<open>current_time\<close>, at \<open>T - k * dt\<close>. In the one-step run the
  entry recorded is the one for a year to expiry, not the one for expiry.
\<close>

theorem stale_time_valuation:
  "\<not> isl (autosim_main 100 100 1 0.02 0.2 1 (sconst 0)) \<and>
   pnl_history (stale_time_run) ! 0
     = cash (stale_time_run)
       + stock_inventory (stale_time_run)
         * (stock_price_history (stale_time_run) ! 1)
       - projr (black_scholes_price (stale_time_run)
           (stock_price_history (stale_time_run) ! 1)
           (sim_T (stale_time_run)
             - 0 * sim_dt (stale_time_run))) \<and>
   pnl_history (stale_time_run) ! 0
     \<noteq> cash (stale_time_run)
       + stock_inventory (stale_time_run)
         * (stock_price_history (stale_time_run) ! 1)
       - projr (black_scholes_price (stale_time_run)
           (stock_price_history (stale_time_run) ! 1)
           (sim_T (stale_time_run)
             - 1 * sim_dt (stale_time_run)))"
proof -
  let ?rh = "rehedge_autosim :: simulator \<Rightarrow> real \<Rightarrow> simulator"
  have rh: "?rh = rehedge_cv \<or> ?rh = rehedge_autosim" by simp
  have "\<exists>s. autosim_main 100 100 1 0.02 0.2 1 (sconst 0) = Inr s"
    by (rule autosim_main_succeeds) simp_all
  then obtain s where X: "autosim_main 100 100 1 0.02 0.2 1 (sconst 0) = Inr s"
    by blast
  from autosim_main_loop [OF X] obtain sim0 p t3 g3
    where i: "init_autosim 100 100 1 0.02 0.2 1 = Inr sim0"
      and p: "black_scholes_price sim0 (sim_S sim0) (sim_T sim0) = Inr p"
      and lp: "hedge_loop ?rh (nat (sim_n_steps sim0))
                 (sim0\<lparr> cash := cash sim0 + p \<rparr>) (sim_T sim0) (sconst 0) = (None, s, t3, g3)"
    by blast
  define sim1 where "sim1 = sim0\<lparr> cash := cash sim0 + p \<rparr>"
  have f1: "sim_S sim1 = 100" "sim_K sim1 = 100" "sim_T sim1 = 1" "sim_r sim1 = 0.02"
    "sim_sigma sim1 = 0.2" "sim_dt sim1 = 1" "pnl_history sim1 = []"
    "stock_price_history sim1 = [100]" "sim_n_steps sim0 = 1" "sim_T sim0 = 1"
    using i by (auto simp: init_autosim_def sim1_def)
  have one: "nat 1 = Suc 0" by simp
  from lp have st0: "hedge_step ?rh sim1 1 (sconst 0) = (None, s, t3, g3)"
    unfolding f1 one sim1_def [symmetric] hedge_loop_Suc_None by auto
  note n0 = hedge_step_None [OF st0 rh]
  have S: "sim_S s = 100" using n0(3) by (simp add: f1 power2_eq_square)
  have par: "sim_K s = 100" "sim_r s = 0.02" "sim_sigma s = 0.2" "sim_dt s = 1"
    using n0(6-9) by (simp_all add: f1)
  have T: "sim_T s = 1" using hedge_step_T [OF st0 rh] by (simp add: f1)
  have hist: "stock_price_history s ! Suc 0 = 100"
    using n0(4) by (simp add: S f1)
  have v: "black_scholes_price s 100 1
             = Inr (100 * norm_cdf 0.2 - 100 * exp (- 0.02) * (1 / 2))"
    using atm_price [of 1 s 100] by (simp add: par power2_eq_square)
  have v0: "black_scholes_price s 100 0 = Inr 0"
    by (simp add: black_scholes_price_def par)
  from hedge_step_books [OF st0 rh] v
  have pnl: "pnl_history s = [cash s + stock_inventory s * 100
                               - (100 * norm_cdf 0.2 - 100 * exp (- 0.02) * (1 / 2))]"
    by (auto simp: S f1)
  have "1 / 2 < norm_cdf 0.2" by (rule norm_cdf_pos_half) simp
  moreover have "exp (- 0.02) < (1::real)" by simp
  ultimately have pos: "0 < 100 * norm_cdf 0.2 - 100 * exp (- 0.02) * (1 / 2)"
    by linarith
  from X pnl hist T par v v0 pos show ?thesis by simp
qed










text \<open>
  C5. At and past expiry, for every spot and strike: with \<open>time_left \<le> 0\<close> the pricer
  returns the intrinsic value \<open>max (S - K) 0\<close> and the delta function returns 0, and
  neither raises.
\<close>

theorem expiry_boundary:
  "time_left \<le> 0 \<Longrightarrow>
     black_scholes_price self s time_left = Inr (max (s - sim_K self) 0) \<and>
     black_scholes_delta self s time_left = Inr 0"
  by (simp add: black_scholes_price_def black_scholes_delta_def)

theorem expiry_boundary_witness:
  "(0::real) \<le> 0 \<and>
   black_scholes_price
     \<lparr> sim_S = 100, sim_K = 100, sim_T = 0.25, sim_r = 0.05, sim_sigma = 0.2,
       sim_dt = 0.0025, sim_n_steps = 100, cash = 0, stock_inventory = 0,
       pnl_history = [], stock_price_history = [100] \<rparr> 105 0 = Inr 5 \<and>
   black_scholes_delta
     \<lparr> sim_S = 100, sim_K = 100, sim_T = 0.25, sim_r = 0.05, sim_sigma = 0.2,
       sim_dt = 0.0025, sim_n_steps = 100, cash = 0, stock_inventory = 0,
       pnl_history = [], stock_price_history = [100] \<rparr> 105 0 = Inr 0"
  using expiry_boundary [of 0
     "\<lparr> sim_S = 100, sim_K = 100, sim_T = 0.25, sim_r = 0.05, sim_sigma = 0.2,
       sim_dt = 0.0025, sim_n_steps = 100, cash = 0, stock_inventory = 0,
       pnl_history = [], stock_price_history = [100] \<rparr>" 105]
  by simp



text \<open>
  C7. Every successful run of a freshly constructed simulator with \<open>n_steps \<ge> 1\<close>
  leaves a price path of \<open>n_steps + 1\<close> elements that starts with the initial spot,
  and a PnL series of \<open>n_steps\<close> elements. This holds for \<^verbatim>\<open>run\<close> of
  \<^verbatim>\<open>compare_volatility.py\<close>, which returns the two lists, and for \<^verbatim>\<open>run_simulation\<close> of
  \<^verbatim>\<open>hedging_autosim.py\<close>, which leaves them in the object.
\<close>

theorem run_lengths:
  assumes "compare_scenario S0 K0 T0 r0 sigma0 n g = Inr (ph, pnl, prem) \<or>
           (autosim_main S0 K0 T0 r0 sigma0 n g = Inr sim' \<and>
            ph = stock_price_history sim' \<and> pnl = pnl_history sim')"
    and "1 \<le> n"
  shows "int (length ph) = n + 1 \<and> hd ph = S0 \<and> int (length pnl) = n"
proof -
  note shape = run_shape [OF assms(1)]
  have "length ph = Suc (nat n)"
    by (subst shape(1)) (simp add: price_path_length)
  moreover have "hd ph = S0"
    by (subst shape(1)) simp
  ultimately show ?thesis using shape(2) assms(2) by simp
qed

theorem run_lengths_witness:
  "\<exists>ph pnl prem sim'.
     compare_scenario 100 100 0.25 0.05 0.15 100 (sconst 0) = Inr (ph, pnl, prem) \<and>
     autosim_main 100 100 0.25 0.05 0.2 100 (sconst 0) = Inr sim' \<and>
     (1::int) \<le> 100 \<and>
     length ph = 101 \<and> hd ph = 100 \<and> length pnl = 100 \<and>
     length (stock_price_history sim') = 101 \<and> hd (stock_price_history sim') = 100 \<and>
     length (pnl_history sim') = 100"
proof -
  have "\<exists>ph pnl prem.
          compare_scenario 100 100 0.25 0.05 0.15 100 (sconst 0) = Inr (ph, pnl, prem)"
    by (rule compare_scenario_succeeds) simp_all
  then obtain ph pnl prem
    where a: "compare_scenario 100 100 0.25 0.05 0.15 100 (sconst 0) = Inr (ph, pnl, prem)"
    by blast
  have "\<exists>sim'. autosim_main 100 100 0.25 0.05 0.2 100 (sconst 0) = Inr sim'"
    by (rule autosim_main_succeeds) simp_all
  then obtain sim' where b: "autosim_main 100 100 0.25 0.05 0.2 100 (sconst 0) = Inr sim'"
    by blast
  have n: "(1::int) \<le> 100" by simp
  from run_lengths [OF disjI1 [OF a] n]
  have 1: "length ph = 101 \<and> hd ph = 100 \<and> length pnl = 100" by simp
  from run_lengths [OF disjI2 n, of 100 100 "0.25" "0.05" "0.2" "sconst 0" sim'
                      "stock_price_history sim'" "pnl_history sim'"] b
  have 2: "length (stock_price_history sim') = 101 \<and> hd (stock_price_history sim') = 100 \<and>
           length (pnl_history sim') = 100" by simp
  from a b n 1 2 show ?thesis by blast
qed



text \<open>
  C9 (as stated, refuted). The claim: the random source is an injected, seedable
  generator, and two runs given the same seed produce identical price sequences. The
  simulator takes no generator and no seed: the same arguments give different price
  paths under two states of the global generator.
\<close>

theorem global_generator_counterexample:
  "map_sum id fst (compare_scenario 100 100 1 0.05 0.2 1 (sconst 0))
     \<noteq> map_sum id fst (compare_scenario 100 100 1 0.05 0.2 1 (sconst 1))"
proof -
  have "\<exists>ph pnl prem. compare_scenario 100 100 1 0.05 0.2 1 (sconst 0) = Inr (ph, pnl, prem)"
    by (rule compare_scenario_succeeds) simp_all
  then obtain ph pnl prem
    where a: "compare_scenario 100 100 1 0.05 0.2 1 (sconst 0) = Inr (ph, pnl, prem)"
    by blast
  have "\<exists>ph pnl prem. compare_scenario 100 100 1 0.05 0.2 1 (sconst 1) = Inr (ph, pnl, prem)"
    by (rule compare_scenario_succeeds) simp_all
  then obtain ph' pnl' prem'
    where b: "compare_scenario 100 100 1 0.05 0.2 1 (sconst 1) = Inr (ph', pnl', prem')"
    by blast
  have "ph \<noteq> ph'"
    using compare_scenario_Inr(2) [OF a] compare_scenario_Inr(2) [OF b]
    by (simp add: Let_def)
  with a b show ?thesis by simp
qed

text \<open>
  C9 (amended). The shocks come from NumPy's global generator, which the simulator
  neither receives nor seeds. A run is determined by the constructor's arguments and
  the first \<open>n_steps\<close> values that generator returns: two runs with the same arguments
  under generator states that agree on those values have the same outcome, price path
  and PnL series included.
\<close>

theorem same_draws_same_run:
  assumes "stake (nat n) g1 = stake (nat n) g2"
  shows "compare_scenario S0 K0 T0 r0 sigma0 n g1 = compare_scenario S0 K0 T0 r0 sigma0 n g2 \<and>
         autosim_main S0 K0 T0 r0 sigma0 n g1 = autosim_main S0 K0 T0 r0 sigma0 n g2"
proof (cases "n = 0")
  case True
  then show ?thesis
    by (simp add: compare_scenario_def autosim_main_def init_compare_def init_autosim_def)
next
  case False
  obtain sim where sim: "init_compare S0 K0 T0 r0 sigma0 n = Inr sim" "sim_n_steps sim = n"
    using False by (simp add: init_compare_def)
  obtain sim2 where sim2: "init_autosim S0 K0 T0 r0 sigma0 n = Inr sim2" "sim_n_steps sim2 = n"
    using False by (simp add: init_autosim_def)
  have "fst (run sim g1) = fst (run sim g2)"
    by (rule run_stake) (simp add: sim(2) assms)
  moreover have "fst (run_simulation sim2 g1) = fst (run_simulation sim2 g2) \<and>
         fst (snd (run_simulation sim2 g1)) = fst (snd (run_simulation sim2 g2))"
    by (rule run_simulation_stake) (simp add: sim2(2) assms)
  ultimately show ?thesis
    by (simp add: compare_scenario_def autosim_main_fst_snd sim(1) sim2(1) split: sum.splits)
qed

theorem same_draws_same_run_witness:
  "stake (nat 2) (0.5 ## - 1 ## sconst (0::real)) = stake (nat 2) (0.5 ## - 1 ## sconst 7) \<and>
   compare_scenario 100 100 0.25 0.05 0.15 2 (0.5 ## - 1 ## sconst 0)
     = compare_scenario 100 100 0.25 0.05 0.15 2 (0.5 ## - 1 ## sconst 7) \<and>
   autosim_main 100 100 0.25 0.05 0.15 2 (0.5 ## - 1 ## sconst 0)
     = autosim_main 100 100 0.25 0.05 0.15 2 (0.5 ## - 1 ## sconst 7)"
proof -
  have s: "stake (nat 2) (0.5 ## - 1 ## sconst (0::real)) = stake (nat 2) (0.5 ## - 1 ## sconst 7)"
    by (simp add: numeral_2_eq_2)
  from same_draws_same_run [OF s] s show ?thesis by blast
qed


end
